theory Spec2Isabelle
  imports Main
begin

section \<open>Python values used by setup.py\<close>

text \<open>
  setup.py declares itself for Python 2 and for Python 3 (its docstring and its
  classifiers). The two interpreters differ in what a pipe delivers: a \<open>str\<close> on
  Python 2, \<open>bytes\<close> on Python 3. The interpreter is therefore a parameter of the model
  wherever the output of a subprocess is used, and such a value carries its type.
  The characters of a text are modelled as \<^typ>\<open>string\<close>; the contents of files are byte
  strings. Every \<open>raise\<close> of the source is a value \<open>Inl e\<close> of the result type
  \<open>error + 'a\<close>.
\<close>

datatype interpreter = Python2 | Python3

datatype error =
    OSError
  | ValueError
  | TypeError
  | IndexError
  | ImportError
  | NameError string
  | IOError string

text \<open>\<open>str.isspace\<close> on one byte: space, tab, line feed, carriage return, VT, FF.\<close>

definition isspace :: "char \<Rightarrow> bool" where
  "isspace c = (c \<in> set [CHR 0x20, CHR 0x09, CHR 0x0A, CHR 0x0D, CHR 0x0B, CHR 0x0C])"

text \<open>\<open>str.strip()\<close>: whitespace removed at both ends.\<close>

definition lstrip :: "string \<Rightarrow> string" where
  "lstrip s = dropWhile isspace s"

definition rstrip :: "string \<Rightarrow> string" where
  "rstrip s = rev (dropWhile isspace (rev s))"

definition strip :: "string \<Rightarrow> string" where
  "strip s = rstrip (lstrip s)"

text \<open>\<open>str.split(sep)\<close> for a one-character separator: one field more than separators.\<close>

fun split_on :: "char \<Rightarrow> string \<Rightarrow> string list" where
  "split_on c [] = [[]]"
| "split_on c (x # xs) =
     (if x = c then [] # split_on c xs
      else (case split_on c xs of
              [] \<Rightarrow> [[x]]
            | f # fs \<Rightarrow> (x # f) # fs))"

text \<open>\<open>str.startswith(p)\<close>.\<close>

definition startswith :: "string \<Rightarrow> string \<Rightarrow> bool" where
  "startswith p s = (take (length p) s = p)"

text \<open>\<open>sep.join(xs)\<close>.\<close>

fun join :: "string \<Rightarrow> string list \<Rightarrow> string" where
  "join sep [] = []"
| "join sep [x] = x"
| "join sep (x # y # ys) = x @ sep @ join sep (y # ys)"

section \<open>Version resolution\<close>

definition target_version :: string where
  "target_version = ''2.1.1''"

text \<open>
  What \<open>subprocess.Popen('git describe'.split(), stdout=PIPE)\<close> does: \<open>Popen\<close> raises
  \<open>OSError\<close> when the program cannot be executed, otherwise the bytes written to
  standard output are collected (none when git itself reports a failure on standard
  error).
\<close>

datatype proc_result = CannotRun | Stdout string

text \<open>
  The value of \<open>p.communicate()[0]\<close>: the pipe is opened without a text mode, so the
  collected output is a \<open>str\<close> on Python 2 and a \<open>bytes\<close> object on Python 3.
\<close>

datatype pystring = Str string | Bytes string

definition communicate_stdout :: "interpreter \<Rightarrow> string \<Rightarrow> pystring" where
  "communicate_stdout py out = (case py of Python2 \<Rightarrow> Str out | Python3 \<Rightarrow> Bytes out)"

text \<open>
  \<open>.strip()\<close> exists on both types and keeps the type; on \<open>bytes\<close> and on the Python 2
  \<open>str\<close> it removes the six ASCII whitespace characters.
\<close>

definition py_strip :: "pystring \<Rightarrow> pystring" where
  "py_strip v = (case v of Str s \<Rightarrow> Str (strip s) | Bytes s \<Rightarrow> Bytes (strip s))"

text \<open>
  \<open>.split('-')\<close>, the separator being a \<open>str\<close> literal: a \<open>str\<close> is split, on a \<open>bytes\<close>
  object the call raises \<open>TypeError\<close> (a bytes-like separator is required), whatever the
  bytes are.
\<close>

definition py_split :: "pystring \<Rightarrow> char \<Rightarrow> error + string list" where
  "py_split v sep = (case v of Str s \<Rightarrow> Inr (split_on sep s) | Bytes s \<Rightarrow> Inl TypeError)"

text \<open>
  \<open>release, build, commitish = git_describe.split('-')\<close> raises \<open>ValueError\<close> unless the
  list has exactly three elements.
\<close>

definition development_version_number :: "interpreter \<Rightarrow> proc_result \<Rightarrow> error + string" where
  "development_version_number py p =
     (case p of
        CannotRun \<Rightarrow> Inl OSError
      | Stdout out \<Rightarrow>
          (let git_describe = py_strip (communicate_stdout py out) in
           case py_split git_describe CHR ''-'' of
             Inl e \<Rightarrow> Inl e
           | Inr parts \<Rightarrow>
               (case parts of
                  [release, build, commitish] \<Rightarrow> Inr (release @ ''b'' @ build)
                | _ \<Rightarrow> Inl ValueError)))"

text \<open>\<open>'PYPI' in os.environ and os.environ['PYPI'] == 'pypitest'\<close>\<close>

definition is_dev_version :: "(string \<rightharpoonup> string) \<Rightarrow> bool" where
  "is_dev_version environ =
     (case environ ''PYPI'' of None \<Rightarrow> False | Some v \<Rightarrow> v = ''pypitest'')"

text \<open>The module-level \<open>version\<close>; the subprocess is only started on the development path.\<close>

definition version ::
  "interpreter \<Rightarrow> (string \<rightharpoonup> string) \<Rightarrow> proc_result \<Rightarrow> error + string" where
  "version py environ p =
     (if is_dev_version environ then development_version_number py p
      else Inr target_version)"

section \<open>Markdown sanitizers\<close>

text \<open>
  \<open>str.splitlines()\<close> on a byte string: a line ends at \<open>\n\<close>, \<open>\r\<close> or \<open>\r\n\<close>; the
  terminators are dropped and a terminator at the very end opens no further line.
\<close>

fun splitlines :: "string \<Rightarrow> string list" where
  "splitlines [] = []"
| "splitlines [x] = (if x = CHR 0x0A \<or> x = CHR 0x0D then [[]] else [[x]])"
| "splitlines (x # y # ys) =
     (if x = CHR 0x0D \<and> y = CHR 0x0A then [] # splitlines ys
      else if x = CHR 0x0A \<or> x = CHR 0x0D then [] # splitlines (y # ys)
      else (case splitlines (y # ys) of
              [] \<Rightarrow> [[x]]
            | l # ls \<Rightarrow> (x # l) # ls))"

text \<open>
  The loop of \<open>chop_markdown_header\<close>:
  \<^verbatim>\<open>while not md[0].strip() or md[0].startswith('[!['): md = md[1:]\<close>.
  \<open>md[0]\<close> on the empty list raises \<open>IndexError\<close>.
\<close>

fun chop_loop :: "string list \<Rightarrow> error + string list" where
  "chop_loop [] = Inl IndexError"
| "chop_loop (l # ls) =
     (if strip l = [] \<or> startswith ''[!['' l then chop_loop ls
      else Inr (l # ls))"

definition chop_markdown_header :: "string \<Rightarrow> error + string" where
  "chop_markdown_header md =
     (case chop_loop (splitlines md) of
        Inl e \<Rightarrow> Inl e
      | Inr ls \<Rightarrow> Inr (join [CHR 0x0A] ls))"

subsection \<open>Regular expressions as \<open>re\<close> runs them\<close>

text \<open>
  The constructs the two patterns of \<open>remove_markdown_links\<close> use: an escaped literal,
  a negated one-character class, concatenation, alternation, the greedy star and a numbered
  capturing group. \<open>x+\<close> is \<open>x\<close> followed by \<open>x*\<close>.
\<close>

datatype regex =
    Lit char
  | NotLit char
  | Seq regex regex
  | Alt regex regex
  | Star regex
  | Group nat regex

definition Plus :: "regex \<Rightarrow> regex" where
  "Plus a = Seq a (Star a)"

type_synonym captures = "nat \<Rightarrow> string option"

text \<open>
  The backtracking search of the engine at one start position: \<open>ms r s g\<close> lists, in the
  order the engine tries them, every way \<open>r\<close> can match a prefix of \<open>s\<close>, each as the
  text left over and the groups captured. The first alternative comes before the second,
  one more iteration of a star before stopping. The match \<open>re\<close> reports is the head of
  the list. An iteration of a star that consumes nothing is not repeated.
\<close>

fun ms :: "regex \<Rightarrow> string \<Rightarrow> captures \<Rightarrow> (string \<times> captures) list" where
  "ms (Lit c) s g = (case s of [] \<Rightarrow> [] | x # xs \<Rightarrow> if x = c then [(xs, g)] else [])"
| "ms (NotLit c) s g = (case s of [] \<Rightarrow> [] | x # xs \<Rightarrow> if x \<noteq> c then [(xs, g)] else [])"
| "ms (Seq a b) s g = concat (map (\<lambda>(s', g'). ms b s' g') (ms a s g))"
| "ms (Alt a b) s g = ms a s g @ ms b s g"
| "ms (Star a) s g =
     concat (map (\<lambda>(s', g'). if length s' < length s then ms (Star a) s' g' else [])
                 (ms a s g)) @ [(s, g)]"
| "ms (Group n a) s g =
     map (\<lambda>(s', g'). (s', g'(n \<mapsto> take (length s - length s') s))) (ms a s g)"

text \<open>
  \<open>re.sub(pattern, repl, s)\<close>: scanning from the left, the first position where the
  pattern matches is replaced and the scan goes on behind the match; a character where
  nothing matches is copied. After an empty match one character is copied.
\<close>

fun re_sub :: "regex \<Rightarrow> (captures \<Rightarrow> string) \<Rightarrow> string \<Rightarrow> string" where
  "re_sub r repl s =
     (case ms r s Map.empty of
        [] \<Rightarrow> (case s of [] \<Rightarrow> [] | x # xs \<Rightarrow> x # re_sub r repl xs)
      | (s', g) # _ \<Rightarrow>
          if length s' < length s then repl g @ re_sub r repl s'
          else (case s of [] \<Rightarrow> repl g | x # xs \<Rightarrow> repl g @ x # re_sub r repl xs))"

text \<open>The replacement template \<open>'\\1'\<close>, and in general \<open>\n\<close>: the text of group \<open>n\<close>.\<close>

definition group_ref :: "nat \<Rightarrow> captures \<Rightarrow> string" where
  "group_ref n g = (case g n of None \<Rightarrow> [] | Some t \<Rightarrow> t)"

text \<open>\<^verbatim>\<open>(?:[^\]]|\\\])\<close>: any character but \<open>]\<close>, or a backslash followed by \<open>]\<close>.\<close>

definition item :: regex where
  "item = Alt (NotLit CHR '']'') (Seq (Lit (CHR 0x5C)) (Lit CHR '']''))"

text \<open>\<^verbatim>\<open>\[((?:[^\]]|\\\])+)\]\[((?:[^\]]|\\\])*)\]\<close>\<close>

definition named_link_re :: regex where
  "named_link_re =
     Seq (Lit CHR ''['')
    (Seq (Group 1 (Plus item))
    (Seq (Lit CHR '']'')
    (Seq (Lit CHR ''['')
    (Seq (Group 2 (Star item))
         (Lit CHR '']'')))))"

text \<open>\<^verbatim>\<open>\[((?:[^\]]|\\\])+)\]\(((?:[^\]]|\\\])*)\)\<close>\<close>

definition url_link_re :: regex where
  "url_link_re =
     Seq (Lit CHR ''['')
    (Seq (Group 1 (Plus item))
    (Seq (Lit CHR '']'')
    (Seq (Lit CHR ''('')
    (Seq (Group 2 (Star item))
         (Lit CHR '')'')))))"

definition remove_markdown_links :: "string \<Rightarrow> string" where
  "remove_markdown_links md =
     (let md = re_sub named_link_re (group_ref 1) md;
          md = re_sub url_link_re (group_ref 1) md
      in md)"

definition pypi_sanitize_markdown :: "string \<Rightarrow> error + string" where
  "pypi_sanitize_markdown md =
     (case chop_markdown_header md of
        Inl e \<Rightarrow> Inl e
      | Inr md \<Rightarrow> Inr (remove_markdown_links md))"

definition pypi_prepare_rst :: "string \<Rightarrow> string" where
  "pypi_prepare_rst rst =
     (let head = ''.. This file is automatically generated by setup.py from README.md and CHANGELOG.md.''
                 @ [CHR 0x0A, CHR 0x0A]
      in head @ rst)"

section \<open>The long description\<close>

text \<open>
  What \<open>get_rst\<close> reads and changes outside the program: the answers of
  \<open>os.path.isdir\<close> and \<open>os.path.islink\<close>, the regular files with their contents, the
  \<open>pandoc\<close> module if it can be imported (its conversion from GitHub Markdown to RST),
  the warnings issued by \<open>warn\<close> and the lines printed.
\<close>

record world =
  isdir :: "string \<Rightarrow> bool"
  islink :: "string \<Rightarrow> bool"
  files :: "string \<rightharpoonup> string"
  pandoc :: "(string \<Rightarrow> string) option"
  warnings :: "string list"
  printed :: "string list"

definition isfile :: "world \<Rightarrow> string \<Rightarrow> bool" where
  "isfile w path = (files w path \<noteq> None)"

definition warn :: "string \<Rightarrow> world \<Rightarrow> world" where
  "warn msg w = w\<lparr>warnings := warnings w @ [msg]\<rparr>"

definition py_print :: "string \<Rightarrow> world \<Rightarrow> world" where
  "py_print line w = w\<lparr>printed := printed w @ [line]\<rparr>"

definition create_rst :: bool where
  "create_rst = True"

text \<open>
  Modelled from the spec: the helpers \<open>read_file\<close>, \<open>update_file\<close> and \<open>rm_f\<close> of the
  module \<open>utils.fs\<close>, which setup.py imports as \<open>fs\<close>. They are plain file helpers: reading
  a file that is absent is a failure (the spec's \<open>MissingFileError\<close>, Python's \<open>IOError\<close>),
  \<open>update_file\<close> overwrites any file of that name and \<open>rm_f\<close> deletes one if there is one.
\<close>

definition fs_read_file :: "world \<Rightarrow> string \<Rightarrow> error + string" where
  "fs_read_file w path =
     (case files w path of None \<Rightarrow> Inl (IOError path) | Some data \<Rightarrow> Inr data)"

definition fs_update_file :: "string \<Rightarrow> string \<Rightarrow> world \<Rightarrow> world" where
  "fs_update_file path data w = w\<lparr>files := (files w)(path \<mapsto> data)\<rparr>"

definition fs_rm_f :: "string \<Rightarrow> world \<Rightarrow> world" where
  "fs_rm_f path w = w\<lparr>files := (files w)(path := None)\<rparr>"

text \<open>
  The names setup.py binds at module level, in the order of its statements: the imports
  (\<open>from utils import fs\<close> binds \<open>fs\<close> only), the configuration, the functions and the
  class. A name that is neither bound here nor a builtin raises \<open>NameError\<close> when the
  statement using it runs.
\<close>

definition module_globals :: "string list" where
  "module_globals =
     [''absolute_import'', ''os'', ''errno'', ''sys'', ''subprocess'', ''warn'', ''setup'',
      ''TestCommand'', ''re'', ''fs'', ''doc'', ''target_version'', ''create_rst'',
      ''development_version_number'', ''is_dev_version'', ''version'', ''PyTest'',
      ''get_rst'', ''generate_rst'', ''markdown2rst'', ''pypi_sanitize_markdown'',
      ''pypi_prepare_rst'', ''chop_markdown_header'', ''remove_markdown_links'']"

text \<open>
  The unqualified call \<open>read_file(path)\<close> of \<open>get_rst\<close>: the name is looked up among the
  module's globals first.
\<close>

definition read_file :: "world \<Rightarrow> string \<Rightarrow> error + string" where
  "read_file w path =
     (if ''read_file'' \<in> set module_globals then fs_read_file w path
      else Inl (NameError ''read_file''))"

text \<open>\<open>markdown2rst\<close>: the \<open>ImportError\<close> of \<open>import pandoc\<close> is caught and raised again.\<close>

definition markdown2rst :: "world \<Rightarrow> string \<Rightarrow> error + string" where
  "markdown2rst w md =
     (case pandoc w of
        None \<Rightarrow> Inl ImportError
      | Some convert \<Rightarrow> Inr (convert md))"

definition generate_rst :: "world \<Rightarrow> world \<times> (error + string)" where
  "generate_rst w =
     (case fs_read_file w ''README.md'' of Inl e \<Rightarrow> (w, Inl e) | Inr md \<Rightarrow>
      case pypi_sanitize_markdown md of Inl e \<Rightarrow> (w, Inl e) | Inr md \<Rightarrow>
      case markdown2rst w md of Inl e \<Rightarrow> (w, Inl e) | Inr rst \<Rightarrow>
      let rst = pypi_prepare_rst rst in
      case fs_read_file w ''CHANGELOG.md'' of Inl e \<Rightarrow> (w, Inl e) | Inr changes \<Rightarrow>
      case pypi_sanitize_markdown changes of Inl e \<Rightarrow> (w, Inl e) | Inr changes_md \<Rightarrow>
      case markdown2rst w changes_md of Inl e \<Rightarrow> (w, Inl e) | Inr changes_rst \<Rightarrow>
      let rst = rst @ [CHR 0x0A] @ changes_rst;
          w = (if create_rst then fs_update_file ''README.rst'' rst w
               else fs_rm_f ''README.rst'' w)
      in (w, Inr rst))"

text \<open>\<open>get_rst\<close> has no \<open>try\<close>: whatever the chosen branch raises leaves the function.\<close>

definition get_rst :: "world \<Rightarrow> world \<times> (error + string)" where
  "get_rst w =
     (if isdir w ''pyandoc/pandoc'' \<and> islink w ''pandoc'' then
        generate_rst (py_print ''Generating README.rst from README.md and CHANGELOG.md'' w)
      else if isfile w ''README.rst'' then
        (let w = py_print ''Reading README.rst'' w
         in (w, read_file w ''README.rst''))
      else
        (let w = warn ''No README.rst found!'' w;
             w = py_print ''Reading README.md'' w
         in (w, case read_file w ''README.md'' of Inl e \<Rightarrow> Inl e | Inr readme \<Rightarrow>
                case read_file w ''CHANGELOG.md'' of Inl e \<Rightarrow> Inl e | Inr changes \<Rightarrow>
                Inr (join [] [readme, [CHR 0x0A], changes]))))"

text \<open>Two checkouts used as concrete inputs: one without the conversion tool chain and
  without \<open>README.rst\<close>, and one where the directory and the symbolic link of the tool
  chain exist but \<open>import pandoc\<close> fails (a link is a link even when it dangles).\<close>

definition bare_checkout :: world where
  "bare_checkout =
     \<lparr>isdir = (\<lambda>path. False), islink = (\<lambda>path. False),
      files = Map.empty(''README.md'' \<mapsto> ''readme'', ''CHANGELOG.md'' \<mapsto> ''changes''),
      pandoc = None, warnings = [], printed = []\<rparr>"

definition dangling_pandoc_checkout :: world where
  "dangling_pandoc_checkout =
     \<lparr>isdir = (\<lambda>path. path = ''pyandoc/pandoc''), islink = (\<lambda>path. path = ''pandoc''),
      files = Map.empty(''README.md'' \<mapsto> ''readme'', ''CHANGELOG.md'' \<mapsto> ''changes''),
      pandoc = None, warnings = [], printed = []\<rparr>"

section \<open>What a pattern denotes\<close>

text \<open>
  The texts a pattern stands for, independent of how the engine searches: \<open>matches r w\<close>
  holds when the whole of \<open>w\<close> has the shape \<open>r\<close> describes. A text contains the syntax
  \<open>r\<close> when some part of it has that shape.
\<close>

inductive matches :: "regex \<Rightarrow> string \<Rightarrow> bool" where
  m_lit: "matches (Lit c) [c]"
| m_notlit: "x \<noteq> c \<Longrightarrow> matches (NotLit c) [x]"
| m_seq: "matches a u \<Longrightarrow> matches b v \<Longrightarrow> matches (Seq a b) (u @ v)"
| m_alt1: "matches a u \<Longrightarrow> matches (Alt a b) u"
| m_alt2: "matches b u \<Longrightarrow> matches (Alt a b) u"
| m_star0: "matches (Star a) []"
| m_star: "matches a u \<Longrightarrow> matches (Star a) v \<Longrightarrow> matches (Star a) (u @ v)"
| m_group: "matches a u \<Longrightarrow> matches (Group n a) u"

definition occurs :: "regex \<Rightarrow> string \<Rightarrow> bool" where
  "occurs r md = (\<exists>pre w post. md = pre @ w @ post \<and> matches r w)"

text \<open>The numbers of the groups of a pattern.\<close>

fun groups :: "regex \<Rightarrow> nat set" where
  "groups (Lit c) = {}"
| "groups (NotLit c) = {}"
| "groups (Seq a b) = groups a \<union> groups b"
| "groups (Alt a b) = groups a \<union> groups b"
| "groups (Star a) = groups a"
| "groups (Group n a) = insert n (groups a)"

section \<open>Version resolution: results\<close>

text \<open>The unpacking on its own: any number of fields but three raises \<open>ValueError\<close>.\<close>

lemma unpack_three:
  "length parts \<noteq> 3 \<Longrightarrow>
     (case parts of [release, build, commitish] \<Rightarrow> Inr (release @ ''b'' @ build)
      | _ \<Rightarrow> Inl ValueError) = (Inl ValueError :: error + string)"
  by (auto split: list.splits)

lemma dev_version:
  "environ ''PYPI'' = Some ''pypitest'' \<Longrightarrow> version py environ p = development_version_number py p"
  by (simp add: version_def is_dev_version_def)

text \<open>On Python 3 the split raises before any field is looked at, for every output.\<close>

lemma python3_type_error:
  "development_version_number Python3 (Stdout out) = Inl TypeError"
  by (simp add: development_version_number_def communicate_stdout_def py_strip_def py_split_def)

lemma python2_fields:
  "development_version_number Python2 (Stdout out) =
     (case split_on CHR ''-'' (strip out) of
        [release, build, commitish] \<Rightarrow> Inr (release @ ''b'' @ build)
      | _ \<Rightarrow> Inl ValueError)"
  by (simp add: development_version_number_def communicate_stdout_def py_strip_def py_split_def)

text \<open>
  C2 says that in development mode (\<open>PYPI\<close> set to \<open>pypitest\<close>) an output of
  \<open>git describe\<close> that splits on \<open>-\<close> into exactly three fields \<open>release\<close>, \<open>build\<close>,
  \<open>commitish\<close> gives the version \<open>release + 'b' + build\<close>, and \<open>1.2.3-4-gabc1234\<close> gives
  \<open>1.2.3b4\<close>. The code does so on Python 2. On Python 3, which setup.py declares as well,
  the output is a \<open>bytes\<close> object, \<open>git_describe.split('-')\<close> raises \<open>TypeError\<close>, and no
  version is returned for any output.
\<close>

theorem version_dev_three_fields_by_interpreter:
  assumes "environ ''PYPI'' = Some ''pypitest''"
    and "split_on CHR ''-'' (strip out) = [release, build, commitish]"
  shows "version Python2 environ (Stdout out) = Inr (release @ ''b'' @ build)
       \<and> version Python3 environ (Stdout out) = Inl TypeError"
  using assms by (simp add: dev_version python3_type_error python2_fields)

text \<open>The line \<open>git describe\<close> prints for the fourth commit after the tag \<open>1.2.3\<close>.\<close>

theorem version_dev_three_fields_by_interpreter_witness:
  "(Map.empty(''PYPI'' \<mapsto> ''pypitest'')) ''PYPI'' = Some ''pypitest''
   \<and> split_on CHR ''-'' (strip (''1.2.3-4-gabc1234'' @ [CHR 0x0A])) = [''1.2.3'', ''4'', ''gabc1234'']
   \<and> version Python2 (Map.empty(''PYPI'' \<mapsto> ''pypitest'')) (Stdout (''1.2.3-4-gabc1234'' @ [CHR 0x0A]))
       = Inr ''1.2.3b4''
   \<and> version Python3 (Map.empty(''PYPI'' \<mapsto> ''pypitest'')) (Stdout (''1.2.3-4-gabc1234'' @ [CHR 0x0A]))
       = Inl TypeError"
proof -
  have e: "(Map.empty(''PYPI'' \<mapsto> ''pypitest'')) ''PYPI'' = Some ''pypitest''"
    by simp
  have s: "split_on CHR ''-'' (strip (''1.2.3-4-gabc1234'' @ [CHR 0x0A])) = [''1.2.3'', ''4'', ''gabc1234'']"
    by (simp add: strip_def lstrip_def rstrip_def isspace_def)
  show ?thesis
    using version_dev_three_fields_by_interpreter
            [of "Map.empty(''PYPI'' \<mapsto> ''pypitest'')" "''1.2.3-4-gabc1234'' @ [CHR 0x0A]"
                "''1.2.3''" "''4''" "''gabc1234''"] e s
    by simp
qed

text \<open>
  C3 says that in development mode an output that does not split on \<open>-\<close> into exactly
  three fields makes the version resolution fail with the error of a malformed version.
  On Python 2 the unpacking raises \<open>ValueError\<close>, the failure the specification calls
  \<open>MalformedVersionError\<close>. On Python 3 the same \<open>TypeError\<close> as for every other output
  is raised at the split, before the fields are counted.
\<close>

theorem version_dev_malformed_by_interpreter:
  assumes "environ ''PYPI'' = Some ''pypitest''"
    and "length (split_on CHR ''-'' (strip out)) \<noteq> 3"
  shows "version Python2 environ (Stdout out) = Inl ValueError
       \<and> version Python3 environ (Stdout out) = Inl TypeError"
  using assms by (simp add: dev_version python3_type_error python2_fields unpack_three)

text \<open>Two fields only.\<close>

theorem version_dev_malformed_by_interpreter_witness:
  "(Map.empty(''PYPI'' \<mapsto> ''pypitest'')) ''PYPI'' = Some ''pypitest''
   \<and> length (split_on CHR ''-'' (strip ''1.2.3-4'')) \<noteq> 3
   \<and> version Python2 (Map.empty(''PYPI'' \<mapsto> ''pypitest'')) (Stdout ''1.2.3-4'') = Inl ValueError
   \<and> version Python3 (Map.empty(''PYPI'' \<mapsto> ''pypitest'')) (Stdout ''1.2.3-4'') = Inl TypeError"
proof -
  have e: "(Map.empty(''PYPI'' \<mapsto> ''pypitest'')) ''PYPI'' = Some ''pypitest''"
    by simp
  have s: "length (split_on CHR ''-'' (strip ''1.2.3-4'')) \<noteq> 3"
    by (simp add: strip_def lstrip_def rstrip_def isspace_def)
  show ?thesis
    using version_dev_malformed_by_interpreter
            [of "Map.empty(''PYPI'' \<mapsto> ''pypitest'')" "''1.2.3-4''"] e s
    by simp
qed

text \<open>
  C4, as stated, promises for empty output a failure of its own kind, that of a process
  that cannot be run, distinct from the one for malformed output. The code never looks
  whether the output is empty: on either interpreter empty output fails exactly as the
  two-field output \<open>1.2.3-4\<close> does, and not with \<open>OSError\<close>.
\<close>

theorem version_dev_empty_output_counterexample:
  "version Python2 (Map.empty(''PYPI'' \<mapsto> ''pypitest'')) (Stdout []) = Inl ValueError
   \<and> version Python2 (Map.empty(''PYPI'' \<mapsto> ''pypitest'')) (Stdout ''1.2.3-4'') = Inl ValueError
   \<and> version Python3 (Map.empty(''PYPI'' \<mapsto> ''pypitest'')) (Stdout []) = Inl TypeError
   \<and> version Python3 (Map.empty(''PYPI'' \<mapsto> ''pypitest'')) (Stdout ''1.2.3-4'') = Inl TypeError
   \<and> ValueError \<noteq> OSError \<and> TypeError \<noteq> OSError"
  by (simp add: version_def is_dev_version_def development_version_number_def
        communicate_stdout_def py_strip_def py_split_def
        strip_def lstrip_def rstrip_def isspace_def)

text \<open>
  C4, amended. In development mode, on either interpreter: when \<open>git\<close> cannot be run
  the version resolution fails with the \<open>OSError\<close> of \<open>Popen\<close> (the specification's
  \<open>ProcessError\<close>); when \<open>git\<close> runs and prints nothing, no version is returned either,
  but the failure is not an \<open>OSError\<close>: it is the same error as for an output that does
  not split into three fields.
\<close>

theorem version_dev_process_failures:
  assumes "environ ''PYPI'' = Some ''pypitest''"
  shows "version py environ CannotRun = Inl OSError
       \<and> version py environ (Stdout []) = version py environ (Stdout ''1.2.3-4'')
       \<and> version py environ (Stdout []) \<noteq> Inl OSError
       \<and> (\<forall>v. version py environ (Stdout []) \<noteq> Inr v)"
proof (cases py)
  case Python2
  with assms show ?thesis
    by (simp add: dev_version python2_fields strip_def lstrip_def rstrip_def isspace_def)
      (simp add: development_version_number_def)
next
  case Python3
  with assms show ?thesis
    by (simp add: dev_version python3_type_error) (simp add: development_version_number_def)
qed

theorem version_dev_process_failures_witness:
  "(Map.empty(''PYPI'' \<mapsto> ''pypitest'')) ''PYPI'' = Some ''pypitest''
   \<and> version Python3 (Map.empty(''PYPI'' \<mapsto> ''pypitest'')) CannotRun = Inl OSError
   \<and> version Python3 (Map.empty(''PYPI'' \<mapsto> ''pypitest'')) (Stdout [])
       = version Python3 (Map.empty(''PYPI'' \<mapsto> ''pypitest'')) (Stdout ''1.2.3-4'')
   \<and> version Python2 (Map.empty(''PYPI'' \<mapsto> ''pypitest'')) CannotRun = Inl OSError
   \<and> version Python2 (Map.empty(''PYPI'' \<mapsto> ''pypitest'')) (Stdout [])
       = version Python2 (Map.empty(''PYPI'' \<mapsto> ''pypitest'')) (Stdout ''1.2.3-4'')"
  using version_dev_process_failures [of "Map.empty(''PYPI'' \<mapsto> ''pypitest'')" Python3]
        version_dev_process_failures [of "Map.empty(''PYPI'' \<mapsto> ''pypitest'')" Python2]
  by simp

section \<open>Header chopping: results\<close>

text \<open>
  C5, as stated, has \<open>chop_markdown_header\<close> return \<open>Real content\<close> with its trailing
  newline for the input \<open>\n\n[![build]]\nReal content\n\<close>. \<open>splitlines\<close> drops every line
  terminator and \<open>'\n'.join\<close> writes one only between two lines, so the result has none.
\<close>

theorem chop_header_example_counterexample:
  "chop_markdown_header
     ([CHR 0x0A, CHR 0x0A] @ ''[![build]]'' @ [CHR 0x0A] @ ''Real content'' @ [CHR 0x0A])
   \<noteq> Inr (''Real content'' @ [CHR 0x0A])"
  by (simp add: chop_markdown_header_def strip_def lstrip_def rstrip_def isspace_def
        startswith_def)

text \<open>
  C5, amended. \<open>chop_markdown_header\<close> applied to \<open>\n\n[![build]]\nReal content\n\<close> returns
  \<open>Real content\<close>: the leading blank lines and the badge line are removed and the first
  real line is retained, without a trailing newline.
\<close>

theorem chop_header_example:
  "chop_markdown_header
     ([CHR 0x0A, CHR 0x0A] @ ''[![build]]'' @ [CHR 0x0A] @ ''Real content'' @ [CHR 0x0A])
   = Inr ''Real content''"
  by (simp add: chop_markdown_header_def strip_def lstrip_def rstrip_def isspace_def
        startswith_def)

lemma chop_loop_all_blank:
  "\<forall>l \<in> set ls. strip l = [] \<Longrightarrow> chop_loop ls = Inl IndexError"
  by (induction ls) simp_all

text \<open>
  C6. On an input all of whose lines are empty or consist of whitespace only,
  \<open>chop_markdown_header\<close> returns no value: every line is dropped and \<open>md[0]\<close> on the
  empty list raises \<open>IndexError\<close>, the failure the specification calls
  \<open>EmptyDocumentError\<close>.
\<close>

theorem chop_header_all_blank:
  assumes "\<forall>l \<in> set (splitlines md). strip l = []"
  shows "chop_markdown_header md = Inl IndexError"
  using chop_loop_all_blank [OF assms] by (simp add: chop_markdown_header_def)

text \<open>Three lines: two spaces, a tab ended by \<open>\r\n\<close>, and an empty line.\<close>

theorem chop_header_all_blank_witness:
  "map strip (splitlines (''  '' @ [CHR 0x0A, CHR 0x09, CHR 0x0D, CHR 0x0A, CHR 0x0A]))
     = [[], [], []]
   \<and> chop_markdown_header (''  '' @ [CHR 0x0A, CHR 0x09, CHR 0x0D, CHR 0x0A, CHR 0x0A])
       = Inl IndexError"
proof -
  have lines: "map strip (splitlines (''  '' @ [CHR 0x0A, CHR 0x09, CHR 0x0D, CHR 0x0A, CHR 0x0A]))
     = [[], [], []]"
    by (simp add: strip_def lstrip_def rstrip_def isspace_def)
  have h: "\<forall>l \<in> set (splitlines (''  '' @ [CHR 0x0A, CHR 0x09, CHR 0x0D, CHR 0x0A, CHR 0x0A])).
       strip l = []"
    by (simp add: strip_def lstrip_def rstrip_def isspace_def)
  show ?thesis
    using chop_header_all_blank [OF h] lines by simp
qed

section \<open>The long description: results\<close>

text \<open>
  C1 says that without the tool chain and without \<open>README.rst\<close> the function \<open>get_rst\<close>
  returns \<open>README.md\<close>, a newline and \<open>CHANGELOG.md\<close>, with one warning. The branch
  is written to do so, but it calls \<open>read_file\<close>, a name setup.py never binds (the helper
  is reachable as \<open>fs.read_file\<close> only, as \<open>generate_rst\<close> calls it): the warning is
  issued once and then the call raises \<open>NameError\<close>.
\<close>

theorem get_rst_raw_fallback_name_error:
  "snd (get_rst bare_checkout) = Inl (NameError ''read_file'')
   \<and> warnings (fst (get_rst bare_checkout)) = [''No README.rst found!'']"
  by (simp add: get_rst_def bare_checkout_def isfile_def read_file_def module_globals_def
        warn_def py_print_def)

text \<open>
  C9, as stated, has \<open>get_rst\<close> recover from a failing \<open>import pandoc\<close>. With the directory
  and the link present and the import failing, the \<open>ImportError\<close> leaves \<open>get_rst\<close>.
\<close>

theorem get_rst_import_error_counterexample:
  "snd (get_rst dangling_pandoc_checkout) = Inl ImportError"
  by (simp add: get_rst_def dangling_pandoc_checkout_def generate_rst_def fs_read_file_def
        py_print_def pypi_sanitize_markdown_def chop_markdown_header_def strip_def lstrip_def
        rstrip_def isspace_def startswith_def markdown2rst_def)

text \<open>
  C9, amended. \<open>get_rst\<close> chooses its branch from the file system alone and catches
  nothing. When the directory \<open>pyandoc/pandoc\<close> and the link \<open>pandoc\<close> exist, the import
  fails, and \<open>README.md\<close> is read and sanitized without error, the \<open>ImportError\<close> raised
  by \<open>markdown2rst\<close> is the result of \<open>get_rst\<close>. When the directory or the link is absent
  the converter is never asked for, and the result of \<open>get_rst\<close> is not an \<open>ImportError\<close>.
\<close>

theorem get_rst_import_error:
  "(isdir w ''pyandoc/pandoc'' \<and> islink w ''pandoc'' \<and> pandoc w = None
      \<and> files w ''README.md'' = Some md \<and> pypi_sanitize_markdown md = Inr md'
    \<longrightarrow> snd (get_rst w) = Inl ImportError)
   \<and> (\<not> (isdir w ''pyandoc/pandoc'' \<and> islink w ''pandoc'')
    \<longrightarrow> snd (get_rst w) \<noteq> Inl ImportError)"
proof (intro conjI impI)
  assume a: "isdir w ''pyandoc/pandoc'' \<and> islink w ''pandoc'' \<and> pandoc w = None
      \<and> files w ''README.md'' = Some md \<and> pypi_sanitize_markdown md = Inr md'"
  then show "snd (get_rst w) = Inl ImportError"
    by (simp add: get_rst_def generate_rst_def fs_read_file_def py_print_def markdown2rst_def)
next
  assume "\<not> (isdir w ''pyandoc/pandoc'' \<and> islink w ''pandoc'')"
  then show "snd (get_rst w) \<noteq> Inl ImportError"
    by (auto simp add: get_rst_def read_file_def module_globals_def Let_def)
qed

theorem get_rst_import_error_witness:
  "(isdir dangling_pandoc_checkout ''pyandoc/pandoc'' \<and> islink dangling_pandoc_checkout ''pandoc''
      \<and> pandoc dangling_pandoc_checkout = None
      \<and> files dangling_pandoc_checkout ''README.md'' = Some ''readme''
      \<and> pypi_sanitize_markdown ''readme'' = Inr ''readme''
      \<and> snd (get_rst dangling_pandoc_checkout) = Inl ImportError)
   \<and> (\<not> (isdir bare_checkout ''pyandoc/pandoc'' \<and> islink bare_checkout ''pandoc'')
      \<and> snd (get_rst bare_checkout) \<noteq> Inl ImportError)"
proof -
  have s: "pypi_sanitize_markdown ''readme'' = Inr ''readme''"
    by code_simp
  have a: "isdir dangling_pandoc_checkout ''pyandoc/pandoc'' \<and> islink dangling_pandoc_checkout ''pandoc''
      \<and> pandoc dangling_pandoc_checkout = None
      \<and> files dangling_pandoc_checkout ''README.md'' = Some ''readme''"
    by (simp add: dangling_pandoc_checkout_def)
  have b: "\<not> (isdir bare_checkout ''pyandoc/pandoc'' \<and> islink bare_checkout ''pandoc'')"
    by (simp add: bare_checkout_def)
  show ?thesis
    using get_rst_import_error [of dangling_pandoc_checkout "''readme''" "''readme''"]
          get_rst_import_error [of bare_checkout] s a b
    by simp
qed

section \<open>Link removal: results\<close>

text \<open>
  C7. \<open>remove_markdown_links\<close> maps \<open>[hello][world]\<close>, \<open>[hello][]\<close> and
  \<open>[hello](http://example.com)\<close> to \<open>hello\<close>.
\<close>

theorem remove_links_examples:
  "remove_markdown_links ''[hello][world]'' = ''hello''
   \<and> remove_markdown_links ''[hello][]'' = ''hello''
   \<and> remove_markdown_links ''[hello](http://example.com)'' = ''hello''"
  by code_simp

subsection \<open>The search finds only what the pattern denotes\<close>

text \<open>The equations of \<open>re_sub\<close> and of the star are applied by hand from here on.\<close>

declare re_sub.simps [simp del]
declare ms.simps(5) [simp del]

inductive_simps matches_Lit: "matches (Lit c) w"
inductive_simps matches_NotLit: "matches (NotLit c) w"
inductive_simps matches_Seq: "matches (Seq a b) w"
inductive_simps matches_Alt: "matches (Alt a b) w"
inductive_simps matches_Group: "matches (Group n a) w"

text \<open>Whatever the engine consumes at a position has the shape the pattern describes.\<close>

lemma ms_sound:
  "(s', g') \<in> set (ms r s g) \<Longrightarrow> \<exists>w. s = w @ s' \<and> matches r w"
proof (induction r s g arbitrary: s' g' rule: ms.induct)
  case (1 c s g)
  then show ?case by (auto split: list.splits if_splits intro: matches.intros)
next
  case (2 c s g)
  then show ?case by (auto split: list.splits if_splits intro: matches.intros)
next
  case (3 a b s g)
  from "3.prems" obtain s1 g1 where
    a: "(s1, g1) \<in> set (ms a s g)" and b: "(s', g') \<in> set (ms b s1 g1)"
    by auto
  from "3.IH"(1) [OF a] obtain u where u: "s = u @ s1" "matches a u" by blast
  from "3.IH"(2) [OF a refl b] obtain v where v: "s1 = v @ s'" "matches b v" by blast
  from u v have "s = (u @ v) @ s'" "matches (Seq a b) (u @ v)"
    by (auto intro: matches.intros)
  then show ?case by blast
next
  case (4 a b s g)
  from "4.prems" consider (left) "(s', g') \<in> set (ms a s g)" | (right) "(s', g') \<in> set (ms b s g)"
    by auto
  then show ?case
  proof cases
    case left
    from "4.IH"(1) [OF left] obtain w where "s = w @ s'" "matches a w" by blast
    then show ?thesis by (blast intro: matches.intros)
  next
    case right
    from "4.IH"(2) [OF right] obtain w where "s = w @ s'" "matches b w" by blast
    then show ?thesis by (blast intro: matches.intros)
  qed
next
  case (5 a s g)
  have "(s', g') = (s, g) \<or> (\<exists>s1 g1. (s1, g1) \<in> set (ms a s g) \<and> length s1 < length s
          \<and> (s', g') \<in> set (ms (Star a) s1 g1))"
    using "5.prems" by (subst (asm) ms.simps(5)) (auto split: if_splits)
  then consider
    (stop) "(s', g') = (s, g)"
  | (iter) s1 g1 where "(s1, g1) \<in> set (ms a s g)" "length s1 < length s"
      "(s', g') \<in> set (ms (Star a) s1 g1)"
    by blast
  then show ?case
  proof cases
    case stop
    then show ?thesis by (auto intro: matches.intros)
  next
    case iter
    from "5.IH"(1) [OF iter(1)] obtain u where u: "s = u @ s1" "matches a u" by blast
    from "5.IH"(2) [OF iter(1) refl iter(2) iter(3)]
    obtain v where v: "s1 = v @ s'" "matches (Star a) v" by blast
    from u v have "s = (u @ v) @ s'" "matches (Star a) (u @ v)"
      by (auto intro: matches.intros)
    then show ?thesis by blast
  qed
next
  case (6 n a s g)
  from "6.prems" obtain g1 where "(s', g1) \<in> set (ms a s g)" by auto
  from "6.IH" [OF this] obtain w where "s = w @ s'" "matches a w" by blast
  then show ?case by (blast intro: matches.intros)
qed

text \<open>A pattern changes the groups it contains and no other.\<close>

lemma ms_keeps:
  "(s', g') \<in> set (ms r s g) \<Longrightarrow> n \<notin> groups r \<Longrightarrow> g' n = g n"
proof (induction r s g arbitrary: s' g' rule: ms.induct)
  case (1 c s g)
  then show ?case by (auto split: list.splits if_splits)
next
  case (2 c s g)
  then show ?case by (auto split: list.splits if_splits)
next
  case (3 a b s g)
  from "3.prems" obtain s1 g1 where
    a: "(s1, g1) \<in> set (ms a s g)" and b: "(s', g') \<in> set (ms b s1 g1)"
    by auto
  from "3.IH"(1) [OF a] "3.prems"(2) have "g1 n = g n" by simp
  moreover from "3.IH"(2) [OF a refl b] "3.prems"(2) have "g' n = g1 n" by simp
  ultimately show ?case by simp
next
  case (4 a b s g)
  then show ?case by auto
next
  case (5 a s g)
  have "(s', g') = (s, g) \<or> (\<exists>s1 g1. (s1, g1) \<in> set (ms a s g) \<and> length s1 < length s
          \<and> (s', g') \<in> set (ms (Star a) s1 g1))"
    using "5.prems"(1) by (subst (asm) ms.simps(5)) (auto split: if_splits)
  then consider
    (stop) "(s', g') = (s, g)"
  | (iter) s1 g1 where "(s1, g1) \<in> set (ms a s g)" "length s1 < length s"
      "(s', g') \<in> set (ms (Star a) s1 g1)"
    by blast
  then show ?case
  proof cases
    case stop
    then show ?thesis by simp
  next
    case iter
    from "5.IH"(1) [OF iter(1)] "5.prems"(2) have "g1 n = g n" by simp
    moreover from "5.IH"(2) [OF iter(1) refl iter(2) iter(3)] "5.prems"(2)
    have "g' n = g1 n" by simp
    ultimately show ?thesis by simp
  qed
next
  case (6 m a s g)
  then show ?case by auto
qed

lemma ms_group:
  assumes "(s', g') \<in> set (ms (Group n a) s g)"
  shows "\<exists>w. g' n = Some w \<and> s = w @ s' \<and> matches a w"
proof -
  from assms obtain g1 where
    a: "(s', g1) \<in> set (ms a s g)" and g': "g' = g1(n \<mapsto> take (length s - length s') s)"
    by auto
  from ms_sound [OF a] obtain w where w: "s = w @ s'" "matches a w" by blast
  then have "take (length s - length s') s = w" by simp
  with g' w show ?thesis by simp
qed

text \<open>Where the engine finds no match at any position, \<open>re.sub\<close> copies the text.\<close>

lemma re_sub_no_match:
  "(\<forall>pre s. md = pre @ s \<longrightarrow> ms r s Map.empty = []) \<Longrightarrow> re_sub r repl md = md"
proof (induction md)
  case Nil
  then show ?case by (subst re_sub.simps) simp
next
  case (Cons x xs)
  have here: "ms r (x # xs) Map.empty = []"
    using Cons.prems by (metis append_Nil)
  have "\<forall>pre s. xs = pre @ s \<longrightarrow> ms r s Map.empty = []"
    using Cons.prems by (metis append_Cons)
  then have "re_sub r repl xs = xs" by (rule Cons.IH)
  with here show ?case by (subst re_sub.simps) simp
qed

lemma re_sub_no_occurrence:
  assumes "\<not> occurs r md"
  shows "re_sub r repl md = md"
proof (rule re_sub_no_match, intro allI impI)
  fix pre s
  assume md: "md = pre @ s"
  show "ms r s Map.empty = []"
  proof (rule ccontr)
    assume "ms r s Map.empty \<noteq> []"
    then obtain s' g' where "(s', g') \<in> set (ms r s Map.empty)"
      by (cases "ms r s Map.empty") auto
    from ms_sound [OF this] obtain w where "s = w @ s'" "matches r w" by blast
    with md have "occurs r md" unfolding occurs_def by blast
    with assms show False by contradiction
  qed
qed

text \<open>
  Conversely the engine finds, at the position where it starts, a way to consume every
  text of the shape the pattern describes. So a text contains the syntax of a pattern
  exactly when the engine matches at some position of it.
\<close>

lemma ms_complete:
  "matches r w \<Longrightarrow> \<exists>g'. (s', g') \<in> set (ms r (w @ s') g)"
proof (induction r w arbitrary: s' g rule: matches.induct)
  case (m_lit c)
  then show ?case by simp
next
  case (m_notlit x c)
  then show ?case by simp
next
  case (m_seq a u b v)
  from m_seq.IH(1) [of "v @ s'" g] obtain g1 where a: "(v @ s', g1) \<in> set (ms a (u @ v @ s') g)"
    by blast
  from m_seq.IH(2) [of s' g1] obtain g2 where "(s', g2) \<in> set (ms b (v @ s') g1)"
    by blast
  with a show ?case by force
next
  case (m_alt1 a u b)
  then show ?case by (metis UnCI ms.simps(4) set_append)
next
  case (m_alt2 b u a)
  then show ?case by (metis UnCI ms.simps(4) set_append)
next
  case (m_star0 a)
  show ?case by (subst ms.simps(5)) auto
next
  case (m_star a u v)
  show ?case
  proof (cases "u = []")
    case True
    with m_star.IH(2) [of s' g] show ?thesis by simp
  next
    case False
    from m_star.IH(1) [of "v @ s'" g] obtain g1 where
      a: "(v @ s', g1) \<in> set (ms a (u @ v @ s') g)" by blast
    from m_star.IH(2) [of s' g1] obtain g2 where
      b: "(s', g2) \<in> set (ms (Star a) (v @ s') g1)" by blast
    from False have "length (v @ s') < length (u @ v @ s')" by simp
    with a b have "(s', g2) \<in> set (ms (Star a) (u @ v @ s') g)"
      by (subst ms.simps(5)) force
    then show ?thesis by auto
  qed
next
  case (m_group a u n)
  from m_group.IH [of s' g] obtain g1 where "(s', g1) \<in> set (ms a (u @ s') g)" by blast
  then show ?case by force
qed

lemma occurs_iff_engine:
  "occurs r md \<longleftrightarrow> (\<exists>pre s. md = pre @ s \<and> ms r s Map.empty \<noteq> [])"
proof
  assume "occurs r md"
  then obtain pre w post where md: "md = pre @ w @ post" and w: "matches r w"
    unfolding occurs_def by blast
  from ms_complete [OF w, of post Map.empty] have "ms r (w @ post) Map.empty \<noteq> []" by auto
  with md show "\<exists>pre s. md = pre @ s \<and> ms r s Map.empty \<noteq> []" by blast
next
  assume "\<exists>pre s. md = pre @ s \<and> ms r s Map.empty \<noteq> []"
  then obtain pre s where md: "md = pre @ s" and "ms r s Map.empty \<noteq> []" by blast
  then obtain s' g' where "(s', g') \<in> set (ms r s Map.empty)"
    by (cases "ms r s Map.empty") auto
  from ms_sound [OF this] obtain w where "s = w @ s'" "matches r w" by blast
  with md show "occurs r md" unfolding occurs_def by blast
qed

text \<open>
  C8. A Markdown text in which no part has the shape \<open>[text][ref]\<close> and no part has the
  shape \<open>[text](url)\<close> (the two patterns of the source, with their escaped brackets) is
  returned unchanged by \<open>remove_markdown_links\<close>: removing links from a text without
  links does nothing.
\<close>

theorem remove_links_no_link_syntax:
  assumes "\<not> occurs named_link_re md" and "\<not> occurs url_link_re md"
  shows "remove_markdown_links md = md"
  using assms by (simp add: remove_markdown_links_def re_sub_no_occurrence)


subsection \<open>The shape of a link\<close>

lemma matches_item_nonempty: "matches item u \<Longrightarrow> u \<noteq> []"
  by (auto simp add: item_def matches_Alt matches_NotLit matches_Seq matches_Lit)

lemma matches_plus_item_nonempty: "matches (Plus item) t \<Longrightarrow> t \<noteq> []"
  by (auto simp add: Plus_def matches_Seq dest: matches_item_nonempty)

lemma matches_named_shape:
  assumes "matches named_link_re w"
  shows "\<exists>t rest. w = CHR ''['' # t @ CHR '']'' # CHR ''['' # rest \<and> t \<noteq> []"
proof -
  from assms obtain t rest where
    "w = [CHR ''[''] @ t @ [CHR '']''] @ [CHR ''[''] @ rest" "matches (Plus item) t"
    unfolding named_link_re_def
    by (auto simp add: matches_Seq matches_Lit matches_Group)
  with matches_plus_item_nonempty show ?thesis by auto
qed

lemma matches_url_shape:
  assumes "matches url_link_re w"
  shows "\<exists>t rest. w = CHR ''['' # t @ CHR '']'' # CHR ''('' # rest \<and> t \<noteq> []"
proof -
  from assms obtain t rest where
    "w = [CHR ''[''] @ t @ [CHR '']''] @ [CHR ''(''] @ rest" "matches (Plus item) t"
    unfolding url_link_re_def
    by (auto simp add: matches_Seq matches_Lit matches_Group)
  with matches_plus_item_nonempty show ?thesis by auto
qed

lemma adjacent_in_zip: "(a, b) \<in> set (zip (xs @ a # b # ys) (tl (xs @ a # b # ys)))"
proof (induction xs)
  case Nil
  then show ?case by simp
next
  case (Cons x xs)
  then show ?case by (cases xs) auto
qed

lemma occurs_named_adjacent:
  assumes "occurs named_link_re md"
  shows "(CHR '']'', CHR ''['') \<in> set (zip md (tl md))"
proof -
  from assms obtain pre w post where md: "md = pre @ w @ post" and "matches named_link_re w"
    unfolding occurs_def by blast
  from matches_named_shape [OF this(2)] obtain t rest where
    "w = CHR ''['' # t @ CHR '']'' # CHR ''['' # rest" by blast
  with md have "md = (pre @ CHR ''['' # t) @ CHR '']'' # CHR ''['' # (rest @ post)" by simp
  then show ?thesis using adjacent_in_zip by metis
qed

lemma occurs_url_adjacent:
  assumes "occurs url_link_re md"
  shows "(CHR '']'', CHR ''('') \<in> set (zip md (tl md))"
proof -
  from assms obtain pre w post where md: "md = pre @ w @ post" and "matches url_link_re w"
    unfolding occurs_def by blast
  from matches_url_shape [OF this(2)] obtain t rest where
    "w = CHR ''['' # t @ CHR '']'' # CHR ''('' # rest" by blast
  with md have "md = (pre @ CHR ''['' # t) @ CHR '']'' # CHR ''('' # (rest @ post)" by simp
  then show ?thesis using adjacent_in_zip by metis
qed

text \<open>A text with brackets and parentheses, none of them a link.\<close>

theorem remove_links_no_link_syntax_witness:
  "\<not> occurs named_link_re ''see [1], f(x) [ok] (fine)''
   \<and> \<not> occurs url_link_re ''see [1], f(x) [ok] (fine)''
   \<and> remove_markdown_links ''see [1], f(x) [ok] (fine)'' = ''see [1], f(x) [ok] (fine)''"
proof -
  have n: "\<not> occurs named_link_re ''see [1], f(x) [ok] (fine)''"
    using occurs_named_adjacent [of "''see [1], f(x) [ok] (fine)''"] by auto
  have u: "\<not> occurs url_link_re ''see [1], f(x) [ok] (fine)''"
    using occurs_url_adjacent [of "''see [1], f(x) [ok] (fine)''"] by auto
  show ?thesis
    using remove_links_no_link_syntax [OF n u] n u by simp
qed

subsection \<open>The link text is never empty\<close>

lemma ms_seqD:
  "(s', g') \<in> set (ms (Seq a b) s g) \<Longrightarrow>
     \<exists>s1 g1. (s1, g1) \<in> set (ms a s g) \<and> (s', g') \<in> set (ms b s1 g1)"
  by auto

lemma link_text_nonempty:
  assumes "(s', g') \<in> set (ms (Seq (Lit c) (Seq (Group 1 (Plus item)) rest)) s g)"
    and "1 \<notin> groups rest"
  shows "group_ref 1 g' \<noteq> []"
proof -
  from ms_seqD [OF assms(1)] obtain s1 g1 where
    "(s', g') \<in> set (ms (Seq (Group 1 (Plus item)) rest) s1 g1)"
    by blast
  from ms_seqD [OF this] obtain s2 g2 where
    grp: "(s2, g2) \<in> set (ms (Group 1 (Plus item)) s1 g1)" and
    tail: "(s', g') \<in> set (ms rest s2 g2)"
    by blast
  from ms_group [OF grp] obtain t where t: "g2 1 = Some t" "matches (Plus item) t"
    by blast
  from ms_keeps [OF tail assms(2)] t(1) have "g' 1 = Some t" by simp
  with matches_plus_item_nonempty [OF t(2)] show ?thesis
    by (simp add: group_ref_def)
qed

lemma named_link_text_nonempty:
  assumes "(s', g') \<in> set (ms named_link_re s g)"
  shows "group_ref 1 g' \<noteq> []"
proof (rule link_text_nonempty)
  show "(s', g') \<in> set (ms (Seq (Lit CHR ''['') (Seq (Group 1 (Plus item))
          (Seq (Lit CHR '']'') (Seq (Lit CHR ''['') (Seq (Group 2 (Star item)) (Lit CHR '']''))))))
          s g)"
    using assms unfolding named_link_re_def .
  show "1 \<notin> groups (Seq (Lit CHR '']'') (Seq (Lit CHR ''['') (Seq (Group 2 (Star item)) (Lit CHR '']''))))"
    by (simp add: item_def)
qed

lemma url_link_text_nonempty:
  assumes "(s', g') \<in> set (ms url_link_re s g)"
  shows "group_ref 1 g' \<noteq> []"
proof (rule link_text_nonempty)
  show "(s', g') \<in> set (ms (Seq (Lit CHR ''['') (Seq (Group 1 (Plus item))
          (Seq (Lit CHR '']'') (Seq (Lit CHR ''('') (Seq (Group 2 (Star item)) (Lit CHR '')''))))))
          s g)"
    using assms unfolding url_link_re_def .
  show "1 \<notin> groups (Seq (Lit CHR '']'') (Seq (Lit CHR ''('') (Seq (Group 2 (Star item)) (Lit CHR '')''))))"
    by (simp add: item_def)
qed

lemma occurs_named_split:
  assumes "occurs named_link_re md"
  shows "\<exists>X Y. md = X @ CHR '']'' # CHR ''['' # Y \<and> 2 \<le> length X"
proof -
  from assms obtain pre w post where md: "md = pre @ w @ post" and "matches named_link_re w"
    unfolding occurs_def by blast
  from matches_named_shape [OF this(2)] obtain t rest where
    "w = CHR ''['' # t @ CHR '']'' # CHR ''['' # rest" "t \<noteq> []" by blast
  with md have "md = (pre @ CHR ''['' # t) @ CHR '']'' # CHR ''['' # (rest @ post)"
    "2 \<le> length (pre @ CHR ''['' # t)"
    by (simp_all add: Suc_le_eq)
  then show ?thesis by blast
qed

lemma occurs_url_split:
  assumes "occurs url_link_re md"
  shows "\<exists>X Y. md = X @ CHR '']'' # CHR ''('' # Y \<and> 2 \<le> length X"
proof -
  from assms obtain pre w post where md: "md = pre @ w @ post" and "matches url_link_re w"
    unfolding occurs_def by blast
  from matches_url_shape [OF this(2)] obtain t rest where
    "w = CHR ''['' # t @ CHR '']'' # CHR ''('' # rest" "t \<noteq> []" by blast
  with md have "md = (pre @ CHR ''['' # t) @ CHR '']'' # CHR ''('' # (rest @ post)"
    "2 \<le> length (pre @ CHR ''['' # t)"
    by (simp_all add: Suc_le_eq)
  then show ?thesis by blast
qed

lemma last_of_snoc_not_inner:
  assumes "r @ [e] = X @ k # d # Y"
  shows "k \<in> set r"
proof -
  have "butlast (r @ [e]) = butlast (X @ k # d # Y)" using assms by simp
  then have "r = X @ k # butlast (d # Y)" by (simp add: butlast_append)
  then show ?thesis by (metis in_set_conv_decomp)
qed

lemma lone_close_bracket:
  assumes "k \<notin> set r" and "a \<noteq> k" and "c \<noteq> k"
    and "a # k # c # r @ [e] = X @ k # d # Y"
  shows "length X = 1"
proof (cases X)
  case Nil
  with assms(2,4) show ?thesis by simp
next
  case (Cons x X1)
  note X = this
  show ?thesis
  proof (cases X1)
    case Nil
    with X show ?thesis by simp
  next
    case (Cons y X2)
    note X1 = this
    show ?thesis
    proof (cases X2)
      case Nil
      with X X1 assms(3,4) show ?thesis by simp
    next
      case (Cons z X3)
      with X X1 assms(4) have "r @ [e] = X3 @ k # d # Y" by simp
      from last_of_snoc_not_inner [OF this] assms(1) show ?thesis by contradiction
    qed
  qed
qed

lemma empty_text_named_form_no_link:
  assumes "CHR '']'' \<notin> set r"
  shows "\<not> occurs named_link_re (''[]['' @ r @ '']'')"
    and "\<not> occurs url_link_re (''[]['' @ r @ '']'')"
proof -
  show "\<not> occurs named_link_re (''[]['' @ r @ '']'')"
  proof
    assume "occurs named_link_re (''[]['' @ r @ '']'')"
    from occurs_named_split [OF this] obtain X Y where
      eq: "''[]['' @ r @ '']'' = X @ CHR '']'' # CHR ''['' # Y" and len: "2 \<le> length X" by blast
    from eq have "CHR ''['' # CHR '']'' # CHR ''['' # r @ [CHR '']''] = X @ CHR '']'' # CHR ''['' # Y"
      by simp
    from lone_close_bracket [OF assms _ _ this] len show False by simp
  qed
  show "\<not> occurs url_link_re (''[]['' @ r @ '']'')"
  proof
    assume "occurs url_link_re (''[]['' @ r @ '']'')"
    from occurs_url_split [OF this] obtain X Y where
      eq: "''[]['' @ r @ '']'' = X @ CHR '']'' # CHR ''('' # Y" and len: "2 \<le> length X" by blast
    from eq have "CHR ''['' # CHR '']'' # CHR ''['' # r @ [CHR '']''] = X @ CHR '']'' # CHR ''('' # Y"
      by simp
    from lone_close_bracket [OF assms _ _ this] len show False by simp
  qed
qed

lemma empty_text_url_form_no_link:
  assumes "CHR '']'' \<notin> set r"
  shows "\<not> occurs named_link_re (''[]('' @ r @ '')'')"
    and "\<not> occurs url_link_re (''[]('' @ r @ '')'')"
proof -
  show "\<not> occurs named_link_re (''[]('' @ r @ '')'')"
  proof
    assume "occurs named_link_re (''[]('' @ r @ '')'')"
    from occurs_named_split [OF this] obtain X Y where
      eq: "''[]('' @ r @ '')'' = X @ CHR '']'' # CHR ''['' # Y" and len: "2 \<le> length X" by blast
    from eq have "CHR ''['' # CHR '']'' # CHR ''('' # r @ [CHR '')''] = X @ CHR '']'' # CHR ''['' # Y"
      by simp
    from lone_close_bracket [OF assms _ _ this] len show False by simp
  qed
  show "\<not> occurs url_link_re (''[]('' @ r @ '')'')"
  proof
    assume "occurs url_link_re (''[]('' @ r @ '')'')"
    from occurs_url_split [OF this] obtain X Y where
      eq: "''[]('' @ r @ '')'' = X @ CHR '']'' # CHR ''('' # Y" and len: "2 \<le> length X" by blast
    from eq have "CHR ''['' # CHR '']'' # CHR ''('' # r @ [CHR '')''] = X @ CHR '']'' # CHR ''('' # Y"
      by simp
    from lone_close_bracket [OF assms _ _ this] len show False by simp
  qed
qed

text \<open>
  C10, as stated, has every occurrence of a form with empty link text left unchanged in
  every string. In \<open>[x][][ref]\<close> the form \<open>[][ref]\<close> occurs, and its first pair of
  brackets is consumed as the empty reference of the link \<open>[x][]\<close> before it.
\<close>

theorem empty_link_text_counterexample:
  "remove_markdown_links ''[x][][ref]'' = ''x[ref]''"
  by code_simp

text \<open>
  C10, amended. In both rewrites the link text, group 1, is not empty in any match the
  engine can find, in any string at any position. So a text that consists of a form with
  empty link text only, \<open>[][ref]\<close> or \<open>[](url)\<close> with no \<open>]\<close> inside \<open>ref\<close> or \<open>url\<close>, is
  returned unchanged, whereas the empty reference of \<open>[text][]\<close> is accepted and the
  text is rewritten to \<open>text\<close>.
\<close>

theorem link_text_group_nonempty:
  "[] \<notin> set (map (\<lambda>(s', g'). group_ref 1 g') (ms named_link_re s g))
   \<and> [] \<notin> set (map (\<lambda>(s', g'). group_ref 1 g') (ms url_link_re s g))
   \<and> (CHR '']'' \<notin> set r \<longrightarrow>
        remove_markdown_links (''[]['' @ r @ '']'') = ''[]['' @ r @ '']''
      \<and> remove_markdown_links (''[]('' @ r @ '')'') = ''[]('' @ r @ '')'')
   \<and> remove_markdown_links ''[text][]'' = ''text''"
proof (intro conjI impI)
  show "[] \<notin> set (map (\<lambda>(s', g'). group_ref 1 g') (ms named_link_re s g))"
    using named_link_text_nonempty [of _ _ s g] by force
  show "[] \<notin> set (map (\<lambda>(s', g'). group_ref 1 g') (ms url_link_re s g))"
    using url_link_text_nonempty [of _ _ s g] by force
  show "remove_markdown_links ''[text][]'' = ''text''"
    by code_simp
next
  assume r: "CHR '']'' \<notin> set r"
  from empty_text_named_form_no_link [OF r]
  show "remove_markdown_links (''[]['' @ r @ '']'') = ''[]['' @ r @ '']''"
    by (simp add: remove_markdown_links_def re_sub_no_occurrence)
  from empty_text_url_form_no_link [OF r]
  show "remove_markdown_links (''[]('' @ r @ '')'') = ''[]('' @ r @ '')''"
    by (simp add: remove_markdown_links_def re_sub_no_occurrence)
qed

theorem link_text_group_nonempty_witness:
  "map (\<lambda>(s', g'). group_ref 1 g') (ms named_link_re ''[a][b]'' Map.empty) = [''a'']
   \<and> map (\<lambda>(s', g'). group_ref 1 g') (ms url_link_re ''[a](b)'' Map.empty) = [''a'']
   \<and> CHR '']'' \<notin> set ''ref'' \<and> CHR '']'' \<notin> set ''url''
   \<and> remove_markdown_links ''[][ref]'' = ''[][ref]''
   \<and> remove_markdown_links ''[](url)'' = ''[](url)''
   \<and> remove_markdown_links ''[text][]'' = ''text''"
proof -
  have a: "map (\<lambda>(s', g'). group_ref 1 g') (ms named_link_re ''[a][b]'' Map.empty) = [''a'']"
    by code_simp
  have b: "map (\<lambda>(s', g'). group_ref 1 g') (ms url_link_re ''[a](b)'' Map.empty) = [''a'']"
    by code_simp
  have c: "CHR '']'' \<notin> set ''ref''" "CHR '']'' \<notin> set ''url''" by simp_all
  show ?thesis
    using link_text_group_nonempty [of "''[a][b]''" Map.empty "''ref''"]
          link_text_group_nonempty [of "''[a](b)''" Map.empty "''url''"] a b c
    by simp
qed

end
